theory Spec2Isabelle
  imports Complex_Main "HOL-Library.Monad_Syntax" "HOL-Library.Log_Nat"
begin

section \<open>Snooker in-play odds: the probabilistic core of main.py\<close>

text \<open>
  The embedding covers the module-level functions of \<^verbatim>\<open>main.py\<close> (\<^verbatim>\<open>clip\<close>,
  \<^verbatim>\<open>logit\<close>, \<^verbatim>\<open>inv_logit\<close>, \<^verbatim>\<open>match_win_prob\<close>, \<^verbatim>\<open>season_strength\<close>,
  \<^verbatim>\<open>live_boost\<close>) and the per-frame combination step of \<^verbatim>\<open>App.update_all\<close>.

  Python floats are modelled as mathematical reals and the functions are embedded in exact
  arithmetic; for the race model, whose order in \<open>p\<close> depends on rounding, a second
  embedding rounds every operation to the nearest double. The two
  library calls that can raise, \<^verbatim>\<open>math.log\<close> and \<^verbatim>\<open>math.exp\<close>, return a sum
  type with the exception as the left branch. Division is real division; every divisor of
  the source is shown positive by a lemma below, so \<^verbatim>\<open>ZeroDivisionError\<close> has no branch.
  Frame counts and the race target are Python integers, modelled as \<^typ>\<open>int\<close>.
\<close>

subsection \<open>Math helpers\<close>

datatype error = ValueError | OverflowError

text \<open>\<^verbatim>\<open>def clip(x, lo, hi): return max(lo, min(hi, x))\<close>\<close>

definition clip :: "real \<Rightarrow> real \<Rightarrow> real \<Rightarrow> real" where
  "clip x lo hi = max lo (min hi x)"

text \<open>
  \<^verbatim>\<open>math.log\<close> raises \<^verbatim>\<open>ValueError\<close> (math domain error) on an argument that is
  not positive.
\<close>

definition math_log :: "real \<Rightarrow> error + real" where
  "math_log x = (if x \<le> 0 then Inl ValueError else Inr (ln x))"

text \<open>
  \<^verbatim>\<open>math.exp\<close> raises \<^verbatim>\<open>OverflowError\<close> (math range error) when the result is too
  large for a double. The largest double is \<open>2 ^ 1024 - 2 ^ 971\<close>; the model raises from
  \<open>2 ^ 1024\<close> on, where no rounding can save the result.
\<close>

definition math_exp :: "real \<Rightarrow> error + real" where
  "math_exp x = (if 2 ^ 1024 \<le> exp x then Inl OverflowError else Inr (exp x))"

text \<open>
  \<^verbatim>\<open>
  def logit(p):
      p = clip(p, 1e-6, 1-1e-6)
      return math.log(p/(1-p))
  \<close>
\<close>

definition logit :: "real \<Rightarrow> error + real" where
  "logit p = (let p = clip p (1 / 1000000) (1 - 1 / 1000000) in math_log (p / (1 - p)))"

text \<open>\<^verbatim>\<open>def inv_logit(z): return 1/(1+math.exp(-z))\<close>\<close>

definition inv_logit :: "real \<Rightarrow> error + real" where
  "inv_logit z = (case math_exp (- z) of Inl e \<Rightarrow> Inl e | Inr u \<Rightarrow> Inr (1 / (1 + u)))"

subsection \<open>The race model\<close>

text \<open>
  \<^verbatim>\<open>
  def match_win_prob(p, a, b, target, memo=None):
      if memo is None: memo = {}
      key = (a, b)
      if a >= target: return 1.0
      if b >= target: return 0.0
      if key in memo: return memo[key]
      memo[key] = p*match_win_prob(p, a+1, b, target, memo) + (1-p)*match_win_prob(p, a, b+1, target, memo)
      return memo[key]
  \<close>
  The dictionary is shared by all recursive calls and mutated in place, so the model
  threads it through: the left operand is evaluated first, the right operand sees the
  entries the left one stored, and the key is written after both. Nothing is assumed
  about termination: a call that does not return has the value \<open>None\<close>.
\<close>

type_synonym memo = "int \<times> int \<rightharpoonup> real"

partial_function (option) match_win_prob_memo ::
  "real \<Rightarrow> int \<Rightarrow> int \<Rightarrow> int \<Rightarrow> memo \<Rightarrow> (real \<times> memo) option" where
  "match_win_prob_memo p a b target memo =
     (if a \<ge> target then Some (1, memo)
      else if b \<ge> target then Some (0, memo)
      else (case memo (a, b) of
              Some v \<Rightarrow> Some (v, memo)
            | None \<Rightarrow>
                do {
                  (x, m1) \<leftarrow> match_win_prob_memo p (a + 1) b target memo;
                  (y, m2) \<leftarrow> match_win_prob_memo p a (b + 1) target m1;
                  let v = p * x + (1 - p) * y;
                  Some (v, m2((a, b) \<mapsto> v))
                }))"

text \<open>The top-level call, \<^verbatim>\<open>memo=None\<close>: a fresh dictionary, and only the value is returned.\<close>

definition match_win_prob :: "real \<Rightarrow> int \<Rightarrow> int \<Rightarrow> int \<Rightarrow> real option" where
  "match_win_prob p a b target = map_option fst (match_win_prob_memo p a b target Map.empty)"

text \<open>
  The recursive calls the body issues: from a score where neither base case applies (and
  the key is not cached), one call with \<open>a + 1\<close> and one with \<open>b + 1\<close>.
\<close>

inductive rec_call :: "int \<Rightarrow> int \<times> int \<Rightarrow> int \<times> int \<Rightarrow> bool" for target :: int where
  call_left: "a < target \<Longrightarrow> b < target \<Longrightarrow> rec_call target (a, b) (a + 1, b)"
| call_right: "a < target \<Longrightarrow> b < target \<Longrightarrow> rec_call target (a, b) (a, b + 1)"

text \<open>
  The direct recurrence of the specification, without a memo table:
  \<open>f(a, b) = p * f(a + 1, b) + (1 - p) * f(a, b + 1)\<close>, with \<open>f = 1\<close> when
  \<open>a \<ge> target\<close> and \<open>f = 0\<close> when \<open>b \<ge> target\<close>. It is the reference the memoized
  function is compared with.
\<close>

function race_naive :: "real \<Rightarrow> int \<Rightarrow> int \<Rightarrow> int \<Rightarrow> real" where
  "race_naive p a b target =
     (if a \<ge> target then 1
      else if b \<ge> target then 0
      else p * race_naive p (a + 1) b target + (1 - p) * race_naive p a (b + 1) target)"
  by pat_completeness auto
termination
  by (relation "measure (\<lambda>(p, a, b, target). nat (target - a) + nat (target - b))") auto

declare race_naive.simps [simp del]

text \<open>A memo table is consistent when every entry holds the value of the recurrence.\<close>

definition memo_ok :: "real \<Rightarrow> int \<Rightarrow> memo \<Rightarrow> bool" where
  "memo_ok p target memo \<longleftrightarrow>
     (\<forall>a b v. memo (a, b) = Some v \<longrightarrow> v = race_naive p a b target)"

subsection \<open>Season strength\<close>

text \<open>
  Python 3 \<^verbatim>\<open>round(x)\<close> on a float returns the nearest integer, a tie going to the even
  neighbour.
\<close>

definition py_round :: "real \<Rightarrow> int" where
  "py_round x =
     (let f = \<lfloor>x\<rfloor>; d = x - of_int f
      in if d < 1 / 2 then f else if 1 / 2 < d then f + 1 else if even f then f else f + 1)"

text \<open>
  \<^verbatim>\<open>
  def season_strength(points_scored, matches_played, win_rate, avg_shot_time, b50, b100,
                      w_wr, w_ppm, w_b50, w_b100, w_shot, scale):
      mp = max(1, int(round(matches_played)))
      ppm  = points_scored / mp
      r50  = b50  / mp
      r100 = b100 / mp
      ppm_c, r50_c, r100_c, shot_c = 300.0, 1.0, 0.15, 30.0
      idx = (
          w_wr   * ((win_rate/100.0) - 0.50) +
          w_ppm  * ((ppm  - ppm_c)/ppm_c) +
          w_b50  * ((r50  - r50_c)/max(0.3, r50_c)) +
          w_b100 * ((r100 - r100_c)/max(0.05, r100_c)) +
          w_shot * ((shot_c - avg_shot_time)/shot_c)
      )
      return scale * idx
  \<close>
\<close>

definition season_mp :: "real \<Rightarrow> int" where
  "season_mp matches_played = max 1 (py_round matches_played)"

definition season_strength ::
  "real \<Rightarrow> real \<Rightarrow> real \<Rightarrow> real \<Rightarrow> real \<Rightarrow> real \<Rightarrow>
   real \<Rightarrow> real \<Rightarrow> real \<Rightarrow> real \<Rightarrow> real \<Rightarrow> real \<Rightarrow> real" where
  "season_strength points_scored matches_played win_rate avg_shot_time b50 b100
                   w_wr w_ppm w_b50 w_b100 w_shot scale =
     (let mp = real_of_int (season_mp matches_played);
          ppm = points_scored / mp;
          r50 = b50 / mp;
          r100 = b100 / mp;
          ppm_c = 300; r50_c = 1; r100_c = 15 / 100; shot_c = 30;
          idx = w_wr * (win_rate / 100 - 50 / 100)
              + w_ppm * ((ppm - ppm_c) / ppm_c)
              + w_b50 * ((r50 - r50_c) / max (3 / 10) r50_c)
              + w_b100 * ((r100 - r100_c) / max (5 / 100) r100_c)
              + w_shot * ((shot_c - avg_shot_time) / shot_c)
      in scale * idx)"

subsection \<open>Live boost\<close>

text \<open>
  The keyword arguments of \<^verbatim>\<open>live_boost\<close>, grouped as the signature groups them: the
  sixteen live statistics, the eight weights, the eight standard deviations. The fields
  keep the parameter names. \<^verbatim>\<open>k_shots\<close> and \<^verbatim>\<open>beta\<close> stay plain arguments.
\<close>

record live_stats =
  potA :: real
  potB :: real
  stA :: real
  stB :: real
  b50A :: real
  b50B :: real
  b100A :: real
  b100B :: real
  hbA :: real
  hbB :: real
  ptsA :: real
  ptsB :: real
  shotsA :: real
  shotsB :: real
  totA :: real
  totB :: real

record live_weights =
  w_pot :: real
  w_st :: real
  w_b50 :: real
  w_b100 :: real
  w_hb :: real
  w_pts :: real
  w_shots :: real
  w_tot :: real

record live_sds =
  sd_pot :: real
  sd_st :: real
  sd_b50 :: real
  sd_b100 :: real
  sd_hb :: real
  sd_pts_share :: real
  sd_shots_share :: real
  sd_tot_share :: real

text \<open>\<^verbatim>\<open>def z(diff, sd): return clip(diff/max(sd,1e-9), -3.0, 3.0)\<close>\<close>

definition z :: "real \<Rightarrow> real \<Rightarrow> real" where
  "z diff sd = clip (diff / max sd (1 / 1000000000)) (- 3) 3"

text \<open>
  \<^verbatim>\<open>
  shots_tot = max(1, shotsA + shotsB)
  w_rel = clip(shots_tot / max(1, k_shots), 0.0, 1.0)
  \<close>
\<close>

definition w_rel :: "real \<Rightarrow> real \<Rightarrow> real \<Rightarrow> real" where
  "w_rel shots_A shots_B k_shots =
     (let shots_tot = max 1 (shots_A + shots_B)
      in clip (shots_tot / max 1 k_shots) 0 1)"

text \<open>
  The composite score \<^verbatim>\<open>S\<close>:
  \<^verbatim>\<open>
  pot_diff   = (potA - potB) / 100.0
  st_diff    = (stB - stA)
  b50_diff   = b50A - b50B
  b100_diff  = b100A - b100B
  hb_diff    = (hbA - hbB) / 100.0
  pts_share  = ptsA / max(1e-9, (ptsA+ptsB))
  shots_share= shotsA/ max(1e-9, (shotsA+shotsB))
  tot_share  = (totA/100.0)
  S = ( w_pot * z(pot_diff, sd_pot/100.0) + w_st * z(st_diff, sd_st)
      + w_b50 * z(b50_diff, sd_b50) + w_b100 * z(b100_diff,sd_b100)
      + w_hb * z(hb_diff, sd_hb/100.0) + w_pts * z(pts_share-0.5, sd_pts_share)
      + w_shots * z(shots_share-0.5,sd_shots_share) + w_tot * z((tot_share-0.5),sd_tot_share) )
  \<close>
\<close>

definition live_S :: "live_stats \<Rightarrow> live_weights \<Rightarrow> live_sds \<Rightarrow> real" where
  "live_S st w sd =
     (let pot_diff = (potA st - potB st) / 100;
          st_diff = stB st - stA st;
          b50_diff = b50A st - b50B st;
          b100_diff = b100A st - b100B st;
          hb_diff = (hbA st - hbB st) / 100;
          pts_share = ptsA st / max (1 / 1000000000) (ptsA st + ptsB st);
          shots_share = shotsA st / max (1 / 1000000000) (shotsA st + shotsB st);
          tot_share = totA st / 100
      in w_pot w * z pot_diff (sd_pot sd / 100)
       + w_st w * z st_diff (sd_st sd)
       + w_b50 w * z b50_diff (sd_b50 sd)
       + w_b100 w * z b100_diff (sd_b100 sd)
       + w_hb w * z hb_diff (sd_hb sd / 100)
       + w_pts w * z (pts_share - 1 / 2) (sd_pts_share sd)
       + w_shots w * z (shots_share - 1 / 2) (sd_shots_share sd)
       + w_tot w * z (tot_share - 1 / 2) (sd_tot_share sd))"

text \<open>\<^verbatim>\<open>return beta * w_rel * S\<close>\<close>

definition live_boost :: "live_stats \<Rightarrow> live_weights \<Rightarrow> live_sds \<Rightarrow> real \<Rightarrow> real \<Rightarrow> real" where
  "live_boost st w sd k_shots beta =
     beta * w_rel (shotsA st) (shotsB st) k_shots * live_S st w sd"

subsection \<open>Combination step of \<^verbatim>\<open>App.update_all\<close>\<close>

text \<open>
  \<^verbatim>\<open>
  pmin = clip(self.pmin.get(), 0.0, 0.5)
  pmax = clip(self.pmax.get(), 0.5, 1.0)
  if pmin > pmax: pmin, pmax = pmax, pmin
  \<close>
\<close>

definition cap_interval :: "real \<Rightarrow> real \<Rightarrow> real \<times> real" where
  "cap_interval pmin_var pmax_var =
     (let pmin = clip pmin_var 0 (1 / 2);
          pmax = clip pmax_var (1 / 2) 1
      in if pmin > pmax then (pmax, pmin) else (pmin, pmax))"

text \<open>
  \<^verbatim>\<open>
  base_logit = (SA - SB)
  total_logit = base_logit + boost
  p_frame_raw = inv_logit(total_logit)
  lam = clip(self.lambda_shrink.get(), 0.0, 1.0)
  p_frame = 0.5 + lam * (p_frame_raw - 0.5)
  if self.cap_on.get():
      (pmin, pmax as above)
      p_frame = clip(p_frame, pmin, pmax)
  \<close>
  The arguments are the two season strengths, the live boost and the values of the
  widgets \<^verbatim>\<open>lambda_shrink\<close>, \<^verbatim>\<open>cap_on\<close>, \<^verbatim>\<open>pmin\<close>, \<^verbatim>\<open>pmax\<close>.
\<close>

definition p_frame :: "real \<Rightarrow> real \<Rightarrow> real \<Rightarrow> real \<Rightarrow> bool \<Rightarrow> real \<Rightarrow> real \<Rightarrow> error + real" where
  "p_frame SA SB boost lambda_shrink cap_on pmin_var pmax_var =
     (let base_logit = SA - SB;
          total_logit = base_logit + boost
      in case inv_logit total_logit of
           Inl e \<Rightarrow> Inl e
         | Inr p_frame_raw \<Rightarrow>
             (let lam = clip lambda_shrink 0 1;
                  p_fr = 1 / 2 + lam * (p_frame_raw - 1 / 2)
              in if cap_on
                 then (case cap_interval pmin_var pmax_var of
                         (pmin, pmax) \<Rightarrow> Inr (clip p_fr pmin pmax))
                 else Inr p_fr))"

text \<open>
  The default widget values of the live panel and the snapshot "all statistics tied, no
  shot played, no point scored" (the time-on-table fields left at their default 50).
\<close>

definition default_weights :: live_weights where
  "default_weights =
     \<lparr>w_pot = 52 / 100, w_st = 44 / 100, w_b50 = 34 / 100, w_b100 = 12 / 100,
      w_hb = 20 / 100, w_pts = 68 / 100, w_shots = 43 / 100, w_tot = 44 / 100\<rparr>"

definition default_sds :: live_sds where
  "default_sds =
     \<lparr>sd_pot = 8, sd_st = 22 / 10, sd_b50 = 18 / 10, sd_b100 = 1, sd_hb = 30,
      sd_pts_share = 18 / 100, sd_shots_share = 18 / 100, sd_tot_share = 16 / 100\<rparr>"

definition tied_no_shots :: live_stats where
  "tied_no_shots =
     \<lparr>potA = 50, potB = 50, stA = 25, stB = 25, b50A = 0, b50B = 0, b100A = 0, b100B = 0,
      hbA = 0, hbB = 0, ptsA = 0, ptsB = 0, shotsA = 0, shotsB = 0, totA = 50, totB = 50\<rparr>"

subsection \<open>The race model in double arithmetic\<close>

text \<open>
  The arithmetic of \<^verbatim>\<open>match_win_prob\<close> is \<^verbatim>\<open>p*x + (1-p)*y\<close> on Python floats: each of
  the four operations (\<^verbatim>\<open>p*x\<close>, \<^verbatim>\<open>1-p\<close>, its product with \<^verbatim>\<open>y\<close>, the sum) rounds
  its exact result to the nearest double, a tie going to the even significand. A double
  with exponent \<open>e\<close> (\<open>2 ^ e \<le> |x| < 2 ^ (e + 1)\<close>, and \<open>e = - 1022\<close> below that, in the
  subnormal range) is a multiple of \<open>2 ^ (e - 52)\<close>. The exponent is read off the bit
  length of \<open>\<lfloor>|x| * 2 ^ 1074\<rfloor>\<close>. Overflow to infinity is not represented: the values of
  the race model stay below 2.
\<close>

definition fl_exponent :: "real \<Rightarrow> int" where
  "fl_exponent x = max (- 1022) (bitlen \<lfloor>\<bar>x\<bar> * 2 ^ 1074\<rfloor> - 1075)"

definition fl :: "real \<Rightarrow> real" where
  "fl x = (let ulp = 2 powi (fl_exponent x - 52) in of_int (py_round (x / ulp)) * ulp)"

text \<open>
  \<^verbatim>\<open>match_win_prob\<close> with every operation rounded, the dictionary threaded as before.
\<close>

partial_function (option) match_win_prob_memo_fl ::
  "real \<Rightarrow> int \<Rightarrow> int \<Rightarrow> int \<Rightarrow> memo \<Rightarrow> (real \<times> memo) option" where
  "match_win_prob_memo_fl p a b target memo =
     (if a \<ge> target then Some (1, memo)
      else if b \<ge> target then Some (0, memo)
      else (case memo (a, b) of
              Some v \<Rightarrow> Some (v, memo)
            | None \<Rightarrow>
                do {
                  (x, m1) \<leftarrow> match_win_prob_memo_fl p (a + 1) b target memo;
                  (y, m2) \<leftarrow> match_win_prob_memo_fl p a (b + 1) target m1;
                  let v = fl (fl (p * x) + fl (fl (1 - p) * y));
                  Some (v, m2((a, b) \<mapsto> v))
                }))"

definition match_win_prob_fl :: "real \<Rightarrow> int \<Rightarrow> int \<Rightarrow> int \<Rightarrow> real option" where
  "match_win_prob_fl p a b target =
     map_option fst (match_win_prob_memo_fl p a b target Map.empty)"

text \<open>The same rounded recurrence without the dictionary, as a reference for the proofs.\<close>

function race_fl :: "real \<Rightarrow> int \<Rightarrow> int \<Rightarrow> int \<Rightarrow> real" where
  "race_fl p a b target =
     (if a \<ge> target then 1
      else if b \<ge> target then 0
      else fl (fl (p * race_fl p (a + 1) b target) + fl (fl (1 - p) * race_fl p a (b + 1) target)))"
  by pat_completeness auto
termination
  by (relation "measure (\<lambda>(p, a, b, target). nat (target - a) + nat (target - b))") auto

declare race_fl.simps [simp del]

definition memo_ok_fl :: "real \<Rightarrow> int \<Rightarrow> memo \<Rightarrow> bool" where
  "memo_ok_fl p target memo \<longleftrightarrow>
     (\<forall>a b v. memo (a, b) = Some v \<longrightarrow> v = race_fl p a b target)"

section \<open>Properties\<close>

subsection \<open>Helpers\<close>

lemma clip_in_range: "lo \<le> hi \<Longrightarrow> lo \<le> clip x lo hi \<and> clip x lo hi \<le> hi"
  by (simp add: clip_def)

lemma clip_id: "lo \<le> x \<Longrightarrow> x \<le> hi \<Longrightarrow> clip x lo hi = x"
  by (simp add: clip_def)

lemma divisors_positive:
  "0 < max sd_v (1 / 1000000000 :: real)"
  "0 < max 1 (k :: real)"
  "0 < max (1 / 1000000000 :: real) share_total"
  "0 < real_of_int (season_mp m)"
  "0 < max (3 / 10) (1 :: real)"
  "0 < max (5 / 100) (15 / 100 :: real)"
  "0 < 1 - clip p (1 / 1000000) (1 - 1 / 1000000)"
  "0 < 1 + exp (u :: real)"
  by (simp_all add: season_mp_def max_def clip_def min_def add_pos_pos)

lemma logit_returns: "\<exists>u. logit p = Inr u"
proof -
  let ?c = "clip p (1 / 1000000) (1 - 1 / 1000000)"
  have "1 / 1000000 \<le> ?c \<and> ?c \<le> 1 - 1 / 1000000"
    by (rule clip_in_range) simp
  then have "0 < ?c" and "0 < 1 - ?c" by simp_all
  then have "0 < ?c / (1 - ?c)" by simp
  then have "math_log (?c / (1 - ?c)) = Inr (ln (?c / (1 - ?c)))"
    by (simp only: math_log_def not_le [symmetric] if_False)
  then show ?thesis by (simp only: logit_def Let_def) blast
qed

lemma exp_1024_overflows: "(2::real) ^ 1024 \<le> exp 1024"
proof -
  have "(2::real) \<le> exp 1"
    using exp_ge_add_one_self [of "1::real"] by simp
  then have "(2::real) ^ 1024 \<le> exp 1 ^ 1024"
    by (intro power_mono) simp_all
  also have "\<dots> = exp (of_nat 1024 * 1)"
    by (simp only: exp_of_nat_mult)
  finally show ?thesis by simp
qed

lemma w_rel_no_shots: "shots_A + shots_B = 0 \<Longrightarrow> w_rel shots_A shots_B k = 1 / max 1 k"
  by (simp add: w_rel_def clip_def max_def min_def field_simps)

lemma cap_interval_eq:
  "cap_interval lo hi = (clip lo 0 (1 / 2), clip hi (1 / 2) 1)"
proof -
  have "clip lo 0 (1 / 2) \<le> 1 / 2"
    using clip_in_range [of 0 "1 / 2" lo] by simp
  moreover have "1 / 2 \<le> clip hi (1 / 2) 1"
    using clip_in_range [of "1 / 2" 1 hi] by simp
  ultimately have "\<not> clip lo 0 (1 / 2) > clip hi (1 / 2) 1"
    by simp
  then show ?thesis
    by (simp add: cap_interval_def Let_def)
qed

lemma p_frame_returns:
  "exp (- (SA - SB + boost)) < 2 ^ 1024 \<Longrightarrow> \<exists>v. p_frame SA SB boost lam cap lo hi = Inr v"
  by (simp add: p_frame_def inv_logit_def math_exp_def Let_def split: prod.splits)

text \<open>
  Where \<^verbatim>\<open>inv_logit\<close> returns, the shrink and the cap behave as designed: shrink factor 0
  gives exactly \<open>1 / 2\<close>, and with capping on the value lies between \<^verbatim>\<open>pmin\<close> clamped
  into \<open>[0, 0.5]\<close> and \<^verbatim>\<open>pmax\<close> clamped into \<open>[0.5, 1]\<close>; the swap never fires.
\<close>

lemma p_frame_value:
  assumes "p_frame SA SB boost lambda_shrink cap_on pmin_var pmax_var = Inr v"
  shows "(lambda_shrink = 0 \<longrightarrow> v = 1 / 2)
       \<and> (cap_on \<longrightarrow>
            cap_interval pmin_var pmax_var = (clip pmin_var 0 (1 / 2), clip pmax_var (1 / 2) 1)
            \<and> clip pmin_var 0 (1 / 2) \<le> v \<and> v \<le> clip pmax_var (1 / 2) 1)"
proof -
  let ?lo = "clip pmin_var 0 (1 / 2)" and ?hi = "clip pmax_var (1 / 2) 1"
  have lo: "?lo \<le> 1 / 2"
    using clip_in_range [of 0 "1 / 2" pmin_var] by simp
  have hi: "1 / 2 \<le> ?hi"
    using clip_in_range [of "1 / 2" 1 pmax_var] by simp
  obtain r where r: "inv_logit (SA - SB + boost) = Inr r"
    using assms by (auto simp: p_frame_def Let_def split: sum.splits)
  let ?s = "1 / 2 + clip lambda_shrink 0 1 * (r - 1 / 2)"
  have v: "v = (if cap_on then clip ?s ?lo ?hi else ?s)"
    using assms r by (auto simp: p_frame_def Let_def cap_interval_eq)
  have "lambda_shrink = 0 \<longrightarrow> v = 1 / 2"
    using v lo hi by (auto simp: clip_def)
  moreover have "cap_on \<longrightarrow> ?lo \<le> v \<and> v \<le> ?hi"
    using v lo hi clip_in_range [of ?lo ?hi ?s] by auto
  ultimately show ?thesis
    by (simp add: cap_interval_eq)
qed

text \<open>
  In exact arithmetic \<^verbatim>\<open>inv_logit\<close> undoes \<^verbatim>\<open>logit\<close> on \<open>[1e-6, 1 - 1e-6]\<close>. This is
  a fact about the formulas only: the division, \<^verbatim>\<open>math.log\<close> and \<^verbatim>\<open>math.exp\<close> of the
  program round to doubles, and the rounded round trip need not return its argument.
\<close>

lemma inv_logit_logit_exact:
  assumes "1 / 1000000 \<le> p" and "p \<le> 1 - 1 / 1000000"
  shows "\<exists>u. logit p = Inr u \<and> inv_logit u = Inr p"
proof -
  have pos: "0 < p" "0 < 1 - p"
    using assms by simp_all
  then have q: "0 < p / (1 - p)"
    by simp
  have c: "clip p (1 / 1000000) (1 - 1 / 1000000) = p"
    using assms by (rule clip_id)
  have "math_log (p / (1 - p)) = Inr (ln (p / (1 - p)))"
    using q by (simp only: math_log_def not_le [symmetric] if_False)
  then have l: "logit p = Inr (ln (p / (1 - p)))"
    by (simp only: logit_def c Let_def)
  have e: "exp (- ln (p / (1 - p))) = (1 - p) / p"
    using q pos by (simp add: exp_minus exp_ln field_simps)
  have "(1 - p) / p < 1000000"
    using assms pos by (simp add: field_simps)
  then have small: "\<not> 2 ^ 1024 \<le> (1 - p) / p"
    by simp
  have "1 / (1 + (1 - p) / p) = p"
    using pos by (simp add: field_simps)
  then have "inv_logit (ln (p / (1 - p))) = Inr p"
    using e small by (simp add: inv_logit_def math_exp_def)
  then show ?thesis
    using l by blast
qed

subsection \<open>The memo table does not change the recurrence\<close>

lemma memo_ok_empty: "memo_ok p target Map.empty"
  by (simp add: memo_ok_def)

lemma memo_ok_upd:
  "memo_ok p target m \<Longrightarrow> v = race_naive p a b target \<Longrightarrow> memo_ok p target (m((a, b) \<mapsto> v))"
  by (simp add: memo_ok_def)

lemma memo_refines:
  "memo_ok p target memo \<Longrightarrow>
   \<exists>memo'. match_win_prob_memo p a b target memo = Some (race_naive p a b target, memo')
          \<and> memo_ok p target memo'"
proof (induction p a b target arbitrary: memo rule: race_naive.induct)
  case (1 p a b target)
  show ?case
  proof (cases "target \<le> a \<or> target \<le> b")
    case True
    then show ?thesis
      using "1.prems"
      by (subst match_win_prob_memo.simps, subst race_naive.simps) auto
  next
    case False
    then have na: "\<not> target \<le> a" and nb: "\<not> target \<le> b" by simp_all
    show ?thesis
    proof (cases "memo (a, b)")
      case (Some v)
      then have "v = race_naive p a b target"
        using "1.prems" by (simp add: memo_ok_def)
      then show ?thesis
        using Some na nb "1.prems"
        by (subst match_win_prob_memo.simps) simp
    next
      case None
      obtain m1 where m1: "match_win_prob_memo p (a + 1) b target memo
                             = Some (race_naive p (a + 1) b target, m1)"
        and ok1: "memo_ok p target m1"
        using "1.IH"(1) [OF na nb "1.prems"] by blast
      obtain m2 where m2: "match_win_prob_memo p a (b + 1) target m1
                             = Some (race_naive p a (b + 1) target, m2)"
        and ok2: "memo_ok p target m2"
        using "1.IH"(2) [OF na nb ok1] by blast
      have r: "race_naive p a b target
                 = p * race_naive p (a + 1) b target + (1 - p) * race_naive p a (b + 1) target"
        using na nb by (subst race_naive.simps) simp
      have "match_win_prob_memo p a b target memo
              = Some (race_naive p a b target, m2((a, b) \<mapsto> race_naive p a b target))"
        using na nb None m1 m2 r
        by (subst match_win_prob_memo.simps) (simp add: Let_def)
      moreover have "memo_ok p target (m2((a, b) \<mapsto> race_naive p a b target))"
        using ok2 by (rule memo_ok_upd) simp
      ultimately show ?thesis by blast
    qed
  qed
qed

lemma match_win_prob_race: "match_win_prob p a b target = Some (race_naive p a b target)"
  using memo_refines [where p = p and target = target and a = a and b = b, OF memo_ok_empty]
  by (auto simp: match_win_prob_def)

text \<open>
  The memoized function returns whatever the dictionary holds, consistent or not: the
  induction follows the calls, and a cached key only shortens them.
\<close>

lemma memo_returns:
  "\<exists>v memo'. match_win_prob_memo p a b target memo = Some (v, memo')"
proof (induction p a b target arbitrary: memo rule: race_naive.induct)
  case (1 p a b target)
  show ?case
  proof (cases "target \<le> a \<or> target \<le> b")
    case True
    then show ?thesis
      by (subst match_win_prob_memo.simps) auto
  next
    case False
    then have na: "\<not> target \<le> a" and nb: "\<not> target \<le> b" by simp_all
    show ?thesis
    proof (cases "memo (a, b)")
      case (Some v)
      then show ?thesis
        using na nb by (subst match_win_prob_memo.simps) simp
    next
      case None
      obtain x m1 where m1: "match_win_prob_memo p (a + 1) b target memo = Some (x, m1)"
        using "1.IH"(1) [OF na nb] by blast
      obtain y m2 where m2: "match_win_prob_memo p a (b + 1) target m1 = Some (y, m2)"
        using "1.IH"(2) [OF na nb] by blast
      show ?thesis
        using na nb None m1 m2
        by (subst match_win_prob_memo.simps) (simp add: Let_def)
    qed
  qed
qed

subsection \<open>Bounds and order of the recurrence\<close>

lemma race_bounds:
  "0 \<le> p \<Longrightarrow> p \<le> 1 \<Longrightarrow> 0 \<le> race_naive p a b target \<and> race_naive p a b target \<le> 1"
proof (induction p a b target rule: race_naive.induct)
  case (1 p a b target)
  show ?case
  proof (cases "target \<le> a \<or> target \<le> b")
    case True
    then show ?thesis by (subst (1 2) race_naive.simps) auto
  next
    case False
    then have na: "\<not> target \<le> a" and nb: "\<not> target \<le> b" by simp_all
    let ?x = "race_naive p (a + 1) b target" and ?y = "race_naive p a (b + 1) target"
    have x: "0 \<le> ?x \<and> ?x \<le> 1" using "1.IH"(1) [OF na nb "1.prems"] .
    have y: "0 \<le> ?y \<and> ?y \<le> 1" using "1.IH"(2) [OF na nb "1.prems"] .
    have r: "race_naive p a b target = p * ?x + (1 - p) * ?y"
      using na nb by (subst race_naive.simps) simp
    have "0 \<le> p * ?x + (1 - p) * ?y"
      using x y "1.prems" by simp
    moreover have "p * ?x + (1 - p) * ?y \<le> 1"
      using x y "1.prems" by (intro convex_bound_le) simp_all
    ultimately show ?thesis using r by simp
  qed
qed

text \<open>Winning the next frame is never worse for A than losing it.\<close>

lemma race_step_order:
  "0 \<le> p \<Longrightarrow> p \<le> 1 \<Longrightarrow> race_naive p a (b + 1) target \<le> race_naive p (a + 1) b target"
proof (induction p a b target rule: race_naive.induct)
  case (1 p a b target)
  note bnd = race_bounds [OF "1.prems"]
  show ?case
  proof (cases "target \<le> a + 1")
    case True
    then have "race_naive p (a + 1) b target = 1" by (subst race_naive.simps) simp
    then show ?thesis using bnd by simp
  next
    case na1: False
    then have na: "\<not> target \<le> a" by simp
    show ?thesis
    proof (cases "target \<le> b + 1")
      case True
      then have "race_naive p a (b + 1) target = 0" using na by (subst race_naive.simps) simp
      then show ?thesis using bnd by simp
    next
      case nb1: False
      then have nb: "\<not> target \<le> b" by simp
      have l: "race_naive p (a + 1) b target
                 = p * race_naive p (a + 1 + 1) b target
                 + (1 - p) * race_naive p (a + 1) (b + 1) target"
        using na1 nb by (subst race_naive.simps) simp
      have r: "race_naive p a (b + 1) target
                 = p * race_naive p (a + 1) (b + 1) target
                 + (1 - p) * race_naive p a (b + 1 + 1) target"
        using na nb1 by (subst race_naive.simps) simp
      have i1: "race_naive p (a + 1) (b + 1) target \<le> race_naive p (a + 1 + 1) b target"
        using "1.IH"(1) [OF na nb "1.prems"] .
      have i2: "race_naive p a (b + 1 + 1) target \<le> race_naive p (a + 1) (b + 1) target"
        using "1.IH"(2) [OF na nb "1.prems"] .
      have "p * race_naive p (a + 1) (b + 1) target \<le> p * race_naive p (a + 1 + 1) b target"
        using i1 "1.prems" by (intro mult_left_mono) simp_all
      moreover have "(1 - p) * race_naive p a (b + 1 + 1) target
                       \<le> (1 - p) * race_naive p (a + 1) (b + 1) target"
        using i2 "1.prems" by (intro mult_left_mono) simp_all
      ultimately show ?thesis using l r by simp
    qed
  qed
qed

lemma race_mono_p:
  "0 \<le> p \<Longrightarrow> p \<le> q \<Longrightarrow> q \<le> 1 \<Longrightarrow> race_naive p a b target \<le> race_naive q a b target"
proof (induction p a b target rule: race_naive.induct)
  case (1 p a b target)
  show ?case
  proof (cases "target \<le> a \<or> target \<le> b")
    case True
    then show ?thesis by (subst (1 2) race_naive.simps) auto
  next
    case False
    then have na: "\<not> target \<le> a" and nb: "\<not> target \<le> b" by simp_all
    let ?xp = "race_naive p (a + 1) b target" and ?yp = "race_naive p a (b + 1) target"
    let ?xq = "race_naive q (a + 1) b target" and ?yq = "race_naive q a (b + 1) target"
    have p1: "p \<le> 1" using "1.prems" by simp
    have x: "?xp \<le> ?xq" using "1.IH"(1) [OF na nb "1.prems"] .
    have y: "?yp \<le> ?yq" using "1.IH"(2) [OF na nb "1.prems"] .
    have o: "?yp \<le> ?xp" using race_step_order [OF "1.prems"(1) p1] .
    have rp: "race_naive p a b target = p * ?xp + (1 - p) * ?yp"
      using na nb by (subst race_naive.simps) simp
    have rq: "race_naive q a b target = q * ?xq + (1 - q) * ?yq"
      using na nb by (subst race_naive.simps) simp
    have "p * ?xp + (1 - p) * ?yp = q * ?xp + (1 - q) * ?yp - (q - p) * (?xp - ?yp)"
      by (simp add: algebra_simps)
    also have "\<dots> \<le> q * ?xp + (1 - q) * ?yp"
      using o "1.prems" by simp
    also have "\<dots> \<le> q * ?xq + (1 - q) * ?yq"
    proof -
      have "q * ?xp \<le> q * ?xq"
        using x "1.prems" by (intro mult_left_mono) simp_all
      moreover have "(1 - q) * ?yp \<le> (1 - q) * ?yq"
        using y "1.prems" by (intro mult_left_mono) simp_all
      ultimately show ?thesis by simp
    qed
    finally show ?thesis using rp rq by simp
  qed
qed

subsection \<open>Rounding to doubles\<close>

text \<open>Rounding to the nearest integer is off by at most a half.\<close>

lemma py_round_error: "\<bar>of_int (py_round y) - y\<bar> \<le> 1 / 2"
proof -
  have "of_int \<lfloor>y\<rfloor> \<le> y" and "y < of_int \<lfloor>y\<rfloor> + 1"
    by linarith+
  then show ?thesis
    by (auto simp: py_round_def Let_def)
qed

lemma fl_exponent_le0:
  assumes "\<bar>x\<bar> < 2"
  shows "fl_exponent x \<le> 0"
proof -
  have "\<bar>x\<bar> * 2 ^ 1074 < 2 * 2 ^ 1074"
    using assms by simp
  then have "\<bar>x\<bar> * 2 ^ 1074 < of_int (2 ^ 1075)"
    by simp
  then have "\<lfloor>\<bar>x\<bar> * 2 ^ 1074\<rfloor> < 2 ^ nat 1075"
    by (simp add: floor_less_iff)
  then have "bitlen \<lfloor>\<bar>x\<bar> * 2 ^ 1074\<rfloor> \<le> 1075"
    by (simp only: bitlen_le_iff_power) simp
  then show ?thesis
    by (simp add: fl_exponent_def)
qed

lemma pow_shift:
  assumes "0 \<le> e + int k"
  shows "(2::real) ^ nat (e + int k) = 2 powi e * 2 ^ k"
proof -
  have "(2::real) powi (e + int k) = 2 powi e * 2 powi int k"
    by (rule power_int_add) simp
  moreover have "(2::real) powi (e + int k) = 2 ^ nat (e + int k)"
    using assms by (simp add: power_int_def)
  ultimately show ?thesis
    by simp
qed

lemma bitlen_scaled:
  assumes "2 powi e \<le> (a::real)" and "a < 2 powi (e + 1)" and "0 \<le> e + int k"
  shows "bitlen \<lfloor>a * 2 ^ k\<rfloor> = e + int k + 1"
proof -
  let ?N = "\<lfloor>a * 2 ^ k\<rfloor>"
  have "of_int (2 ^ nat (e + int k)) \<le> a * 2 ^ k"
    using assms(1) by (simp add: pow_shift [OF assms(3)])
  then have lo: "2 ^ nat (e + int k) \<le> ?N"
    by (simp only: le_floor_iff)
  have "0 \<le> (e + 1) + int k"
    using assms(3) by simp
  then have "(2::real) ^ nat ((e + 1) + int k) = 2 powi (e + 1) * 2 ^ k"
    by (rule pow_shift)
  then have "a * 2 ^ k < of_int (2 ^ nat (e + 1 + int k))"
    using assms(2) by simp
  then have hi: "?N < 2 ^ nat (e + 1 + int k)"
    by (simp only: floor_less_iff)
  have "bitlen ?N \<le> e + 1 + int k"
    using hi assms(3) by (simp add: bitlen_le_iff_power)
  moreover have "nat (e + 1 + int k) - 1 = nat (e + int k)"
    using assms(3) by simp
  then have "e + 1 + int k \<le> bitlen ?N"
    using lo by (simp add: bitlen_ge_iff_power)
  ultimately show ?thesis
    by simp
qed

lemma fl_exponent_eq:
  assumes "2 powi e \<le> \<bar>x\<bar>" and "\<bar>x\<bar> < 2 powi (e + 1)" and "- 1022 \<le> e"
  shows "fl_exponent x = e"
proof -
  have "0 \<le> e + int 1074"
    using assms(3) by simp
  from bitlen_scaled [OF assms(1,2) this]
  have "bitlen \<lfloor>\<bar>x\<bar> * 2 ^ 1074\<rfloor> - 1075 = e"
    by simp
  then show ?thesis
    using assms(3) by (simp only: fl_exponent_def)
qed

lemma fl_eqI:
  assumes "2 powi e \<le> \<bar>x\<bar>" and "\<bar>x\<bar> < 2 powi (e + 1)" and "- 1022 \<le> e"
    and "py_round (x / 2 powi (e - 52)) = n" and "y = of_int n * 2 powi (e - 52)"
  shows "fl x = y"
  using assms(4,5) by (simp add: fl_def fl_exponent_eq [OF assms(1-3)])

lemma fl_0: "fl 0 = 0"
  by (simp add: fl_def py_round_def)

lemma fl_error:
  assumes "\<bar>x\<bar> < 2"
  shows "\<bar>fl x - x\<bar> \<le> 1 / 2 ^ 53"
proof -
  define u :: real where "u = 2 powi (fl_exponent x - 52)"
  have upos: "0 < u"
    by (simp add: u_def)
  have "u \<le> 2 powi (- 52)"
    unfolding u_def using fl_exponent_le0 [OF assms] by (intro power_int_increasing) simp_all
  then have ule: "u \<le> 1 / 2 ^ 52"
    by (simp add: power_int_minus divide_simps)
  have "fl x - x = (of_int (py_round (x / u)) - x / u) * u"
    using upos by (simp add: fl_def u_def [symmetric] algebra_simps)
  then have "\<bar>fl x - x\<bar> = \<bar>of_int (py_round (x / u)) - x / u\<bar> * u"
    using upos by (simp add: abs_mult)
  also have "\<dots> \<le> 1 / 2 * u"
    using py_round_error [of "x / u"] upos by (intro mult_right_mono) simp_all
  also have "\<dots> \<le> 1 / 2 * (1 / 2 ^ 52)"
    using ule by simp
  finally show ?thesis
    by simp
qed

subsection \<open>The rounded race model\<close>

text \<open>The dictionary does not change the rounded recurrence either.\<close>

lemma memo_fl_refines:
  "memo_ok_fl p target memo \<Longrightarrow>
   \<exists>memo'. match_win_prob_memo_fl p a b target memo = Some (race_fl p a b target, memo')
          \<and> memo_ok_fl p target memo'"
proof (induction p a b target arbitrary: memo rule: race_fl.induct)
  case (1 p a b target)
  show ?case
  proof (cases "target \<le> a \<or> target \<le> b")
    case True
    then show ?thesis
      using "1.prems"
      by (subst match_win_prob_memo_fl.simps, subst race_fl.simps) auto
  next
    case False
    then have na: "\<not> target \<le> a" and nb: "\<not> target \<le> b" by simp_all
    show ?thesis
    proof (cases "memo (a, b)")
      case (Some v)
      then have "v = race_fl p a b target"
        using "1.prems" by (simp add: memo_ok_fl_def)
      then show ?thesis
        using Some na nb "1.prems"
        by (subst match_win_prob_memo_fl.simps) simp
    next
      case None
      obtain m1 where m1: "match_win_prob_memo_fl p (a + 1) b target memo
                             = Some (race_fl p (a + 1) b target, m1)"
        and ok1: "memo_ok_fl p target m1"
        using "1.IH"(1) [OF na nb "1.prems"] by blast
      obtain m2 where m2: "match_win_prob_memo_fl p a (b + 1) target m1
                             = Some (race_fl p a (b + 1) target, m2)"
        and ok2: "memo_ok_fl p target m2"
        using "1.IH"(2) [OF na nb ok1] by blast
      have r: "race_fl p a b target
                 = fl (fl (p * race_fl p (a + 1) b target)
                     + fl (fl (1 - p) * race_fl p a (b + 1) target))"
        using na nb by (subst race_fl.simps) simp
      have "match_win_prob_memo_fl p a b target memo
              = Some (race_fl p a b target, m2((a, b) \<mapsto> race_fl p a b target))"
        using na nb None m1 m2 r
        by (subst match_win_prob_memo_fl.simps) (simp add: Let_def)
      moreover have "memo_ok_fl p target (m2((a, b) \<mapsto> race_fl p a b target))"
        using ok2 by (simp add: memo_ok_fl_def)
      ultimately show ?thesis by blast
    qed
  qed
qed

lemma match_win_prob_fl_race: "match_win_prob_fl p a b target = Some (race_fl p a b target)"
proof -
  have "memo_ok_fl p target Map.empty"
    by (simp add: memo_ok_fl_def)
  from memo_fl_refines [OF this, of a b] show ?thesis
    by (auto simp: match_win_prob_fl_def)
qed

text \<open>
  Each level of the recursion rounds four times, each rounding is off by at most
  \<open>2 ^ - 53\<close> on values below 2, and the errors of the two recursive results enter with
  weights \<open>p\<close> and \<open>1 - p\<close>: the rounded value stays within \<open>5 * 2 ^ - 53\<close> per level
  of the exact one.
\<close>

lemma race_fl_error:
  "0 \<le> p \<Longrightarrow> p \<le> 1 \<Longrightarrow> nat (target - a) + nat (target - b) \<le> 2 ^ 49 \<Longrightarrow>
   \<bar>race_fl p a b target - race_naive p a b target\<bar>
     \<le> 5 * real (nat (target - a) + nat (target - b)) / 2 ^ 53"
proof (induction p a b target rule: race_naive.induct)
  case (1 p a b target)
  note p0 = "1.prems"(1) and p1 = "1.prems"(2) and small = "1.prems"(3)
  show ?case
  proof (cases "target \<le> a \<or> target \<le> b")
    case True
    then have "race_fl p a b target = race_naive p a b target"
      by (subst race_fl.simps, subst race_naive.simps) auto
    then show ?thesis by simp
  next
    case False
    then have na: "\<not> target \<le> a" and nb: "\<not> target \<le> b" by simp_all
    define n where "n = nat (target - (a + 1)) + nat (target - b)"
    have n1: "nat (target - a) + nat (target - b) = n + 1"
      using na nb unfolding n_def by linarith
    have n2: "nat (target - a) + nat (target - (b + 1)) = n"
      using na nb unfolding n_def by linarith
    have nle: "n \<le> 2 ^ 49"
      using small n1 by simp
    then have "real n \<le> real (2 ^ 49)"
      by (simp only: of_nat_le_iff)
    then have nreal: "real n \<le> 2 ^ 49"
      by simp
    define d :: real where "d = 1 / 2 ^ 53"
    define E :: real where "E = 5 * real n * d"
    have dpos: "0 < d" and dsmall: "d \<le> 1 / 16"
      by (simp_all add: d_def)
    have E0: "0 \<le> E"
      using dpos by (simp add: E_def)
    have "5 * real n * d \<le> 5 * 2 ^ 49 * d"
      using nreal dpos by simp
    also have "\<dots> = 5 / 16"
      by (simp add: d_def)
    finally have E1: "E \<le> 5 / 16"
      by (simp add: E_def)
    let ?X = "race_fl p (a + 1) b target" and ?Y = "race_fl p a (b + 1) target"
    let ?RX = "race_naive p (a + 1) b target" and ?RY = "race_naive p a (b + 1) target"
    have "nat (target - (a + 1)) + nat (target - b) \<le> 2 ^ 49"
      using nle by (simp add: n_def)
    from "1.IH"(1) [OF na nb p0 p1 this]
    have ex: "\<bar>?X - ?RX\<bar> \<le> E"
      by (simp add: E_def d_def n_def)
    have "nat (target - a) + nat (target - (b + 1)) \<le> 2 ^ 49"
      using nle n2 by simp
    from "1.IH"(2) [OF na nb p0 p1 this]
    have ey: "\<bar>?Y - ?RY\<bar> \<le> E"
      by (simp add: E_def d_def n2)
    have rx: "0 \<le> ?RX \<and> ?RX \<le> 1" and ry: "0 \<le> ?RY \<and> ?RY \<le> 1"
      using race_bounds [OF p0 p1] by blast+
    have absX: "\<bar>?X\<bar> \<le> 21 / 16" and absY: "\<bar>?Y\<bar> \<le> 21 / 16"
      using ex ey rx ry E1 by linarith+
    define t1 where "t1 = fl (p * ?X)"
    define t2 where "t2 = fl (1 - p)"
    define t3 where "t3 = fl (t2 * ?Y)"
    define v where "v = fl (t1 + t3)"
    define R where "R = p * ?RX + (1 - p) * ?RY"
    have Rb: "0 \<le> R \<and> R \<le> 1"
    proof
      show "0 \<le> R" using rx ry p0 p1 by (simp add: R_def)
      show "R \<le> 1" unfolding R_def using rx ry p0 p1 by (intro convex_bound_le) simp_all
    qed
    have "\<bar>p * ?X\<bar> \<le> 1 * \<bar>?X\<bar>"
      unfolding abs_mult using p0 p1 by (intro mult_right_mono) simp_all
    then have "\<bar>p * ?X\<bar> < 2"
      using absX by linarith
    then have e1: "\<bar>t1 - p * ?X\<bar> \<le> d"
      unfolding t1_def d_def by (rule fl_error)
    have "\<bar>1 - p\<bar> < 2"
      using p0 p1 by simp
    then have e2: "\<bar>t2 - (1 - p)\<bar> \<le> d"
      unfolding t2_def d_def by (rule fl_error)
    then have abst2: "\<bar>t2\<bar> \<le> 17 / 16"
      using p0 p1 dsmall by linarith
    have "\<bar>t2 * ?Y\<bar> \<le> 17 / 16 * (21 / 16)"
      unfolding abs_mult using abst2 absY by (intro mult_mono) simp_all
    then have "\<bar>t2 * ?Y\<bar> < 2"
      by simp
    then have e3: "\<bar>t3 - t2 * ?Y\<bar> \<le> d"
      unfolding t3_def d_def by (rule fl_error)
    have m1: "\<bar>(t2 - (1 - p)) * ?Y\<bar> \<le> d * (21 / 16)"
      unfolding abs_mult using e2 absY by (intro mult_mono) simp_all
    have "p * \<bar>?X - ?RX\<bar> + (1 - p) * \<bar>?Y - ?RY\<bar> \<le> E"
      using ex ey p0 p1 by (intro convex_bound_le) simp_all
    moreover have "\<bar>p * (?X - ?RX)\<bar> = p * \<bar>?X - ?RX\<bar>"
      using p0 by (simp add: abs_mult)
    moreover have "\<bar>(1 - p) * (?Y - ?RY)\<bar> = (1 - p) * \<bar>?Y - ?RY\<bar>"
      using p1 by (simp add: abs_mult)
    ultimately have m2: "\<bar>p * (?X - ?RX)\<bar> + \<bar>(1 - p) * (?Y - ?RY)\<bar> \<le> E"
      by simp
    have split: "t1 + t3 - R
        = (t1 - p * ?X) + (t3 - t2 * ?Y) + (t2 - (1 - p)) * ?Y
          + p * (?X - ?RX) + (1 - p) * (?Y - ?RY)"
      by (simp add: R_def algebra_simps)
    have s: "\<bar>t1 + t3 - R\<bar> \<le> d + d + d * (21 / 16) + E"
      unfolding split using e1 e3 m1 m2 by linarith
    then have "\<bar>t1 + t3\<bar> < 2"
      using Rb dsmall E1 by linarith
    then have e4: "\<bar>v - (t1 + t3)\<bar> \<le> d"
      unfolding v_def d_def by (rule fl_error)
    have "\<bar>v - R\<bar> \<le> 5 * d + E"
      using e4 s dpos by linarith
    also have "\<dots> = 5 * real (n + 1) * d"
      by (simp add: E_def algebra_simps)
    finally have fin: "\<bar>v - R\<bar> \<le> 5 * real (n + 1) / 2 ^ 53"
      by (simp add: d_def)
    have "race_fl p a b target = v"
      using na nb by (subst race_fl.simps) (simp add: v_def t1_def t2_def t3_def)
    moreover have "race_naive p a b target = R"
      using na nb by (subst race_naive.simps) (simp add: R_def)
    ultimately show ?thesis
      using fin n1 by simp
  qed
qed

lemma match_win_prob_fl_mono_aux:
  assumes "0 \<le> p" and "p \<le> q" and "q \<le> 1"
    and "nat (target - a) + nat (target - b) \<le> 2 ^ 49"
  shows "race_fl p a b target
           \<le> race_fl q a b target + 10 * real (nat (target - a) + nat (target - b)) / 2 ^ 53"
proof -
  have p1: "p \<le> 1" and q0: "0 \<le> q"
    using assms by simp_all
  have "\<bar>race_fl p a b target - race_naive p a b target\<bar>
          \<le> 5 * real (nat (target - a) + nat (target - b)) / 2 ^ 53"
    using assms(1) p1 assms(4) by (rule race_fl_error)
  moreover have "\<bar>race_fl q a b target - race_naive q a b target\<bar>
          \<le> 5 * real (nat (target - a) + nat (target - b)) / 2 ^ 53"
    using q0 assms(3,4) by (rule race_fl_error)
  moreover have "race_naive p a b target \<le> race_naive q a b target"
    using assms(1-3) by (rule race_mono_p)
  ultimately show ?thesis
    by linarith
qed

text \<open>
  The rounded recurrence from 0-0 with target 2, given the nine roundings it performs, and
  its value at the double \<open>0.42765383195592854\<close> and at the next double above it.
\<close>

lemma race_fl_target2:
  assumes "fl (1 - p) = q" and "fl p = p" and "fl (q * p) = t" and "fl (p + t) = f10"
    and "fl (p * p) = f01" and "fl f01 = f01" and "fl (p * f10) = a" and "fl (q * f01) = b"
    and "fl (a + b) = v"
  shows "race_fl p 0 0 2 = v"
  by (simp add: race_fl.simps assms fl_0)

lemma race_fl_ce1:
  "race_fl (3851963276480569 / 2 ^ 53) 0 0 2 = 3532966388691955 / 2 ^ 53"
proof -
  have r1: "fl (1 - 3851963276480569 / 2 ^ 53) = 5155235978260423 / 2 ^ 53"
    by (rule fl_eqI [where e = "- 1" and n = 5155235978260423])
       (simp_all add: py_round_def power_int_minus)
  have r2: "fl (3851963276480569 / 2 ^ 53) = 3851963276480569 / 2 ^ 53"
    by (rule fl_eqI [where e = "- 2" and n = 7703926552961138])
       (simp_all add: py_round_def power_int_minus)
  have r3: "fl (5155235978260423 / 2 ^ 53 * (3851963276480569 / 2 ^ 53)) = 8818625682960559 / 2 ^ 55"
    by (rule fl_eqI [where e = "- 3" and n = 8818625682960559])
       (simp_all add: py_round_def power_int_minus)
  have r4: "fl (3851963276480569 / 2 ^ 53 + 8818625682960559 / 2 ^ 55) = 6056619697220709 / 2 ^ 53"
    by (rule fl_eqI [where e = "- 1" and n = 6056619697220709])
       (simp_all add: py_round_def power_int_minus)
  have r5: "fl (3851963276480569 / 2 ^ 53 * (3851963276480569 / 2 ^ 53)) = 6589227422961717 / 2 ^ 55"
    by (rule fl_eqI [where e = "- 3" and n = 6589227422961717])
       (simp_all add: py_round_def power_int_minus)
  have r6: "fl (6589227422961717 / 2 ^ 55) = 6589227422961717 / 2 ^ 55"
    by (rule fl_eqI [where e = "- 3" and n = 6589227422961717])
       (simp_all add: py_round_def power_int_minus)
  have r7: "fl (3851963276480569 / 2 ^ 53 * (6056619697220709 / 2 ^ 53)) = 2529430295133 / 2 ^ 43"
    by (rule fl_eqI [where e = "- 2" and n = 5180273244432384])
       (simp_all add: py_round_def power_int_minus)
  have r8: "fl (5155235978260423 / 2 ^ 53 * (6589227422961717 / 2 ^ 55)) = 3771319065903051 / 2 ^ 55"
    by (rule fl_eqI [where e = "- 4" and n = 7542638131806102])
       (simp_all add: py_round_def power_int_minus)
  have r9: "fl (2529430295133 / 2 ^ 43 + 3771319065903051 / 2 ^ 55) = 3532966388691955 / 2 ^ 53"
    by (rule fl_eqI [where e = "- 2" and n = 7065932777383910])
       (simp_all add: py_round_def power_int_minus)
  show ?thesis
    by (rule race_fl_target2 [OF r1 r2 r3 r4 r5 r6 r7 r8 r9])
qed

lemma race_fl_ce2:
  "race_fl (7703926552961139 / 2 ^ 54) 0 0 2 = 7065932777383909 / 2 ^ 54"
proof -
  have r1: "fl (1 - 7703926552961139 / 2 ^ 54) = 2577617989130211 / 2 ^ 52"
    by (rule fl_eqI [where e = "- 1" and n = 5155235978260422])
       (simp_all add: py_round_def power_int_minus)
  have r2: "fl (7703926552961139 / 2 ^ 54) = 7703926552961139 / 2 ^ 54"
    by (rule fl_eqI [where e = "- 2" and n = 7703926552961139])
       (simp_all add: py_round_def power_int_minus)
  have r3: "fl (2577617989130211 / 2 ^ 52 * (7703926552961139 / 2 ^ 54)) = 8818625682960559 / 2 ^ 55"
    by (rule fl_eqI [where e = "- 3" and n = 8818625682960559])
       (simp_all add: py_round_def power_int_minus)
  have r4: "fl (7703926552961139 / 2 ^ 54 + 8818625682960559 / 2 ^ 55) = 6056619697220709 / 2 ^ 53"
    by (rule fl_eqI [where e = "- 1" and n = 6056619697220709])
       (simp_all add: py_round_def power_int_minus)
  have r5: "fl (7703926552961139 / 2 ^ 54 * (7703926552961139 / 2 ^ 54)) = 3294613711480859 / 2 ^ 54"
    by (rule fl_eqI [where e = "- 3" and n = 6589227422961718])
       (simp_all add: py_round_def power_int_minus)
  have r6: "fl (3294613711480859 / 2 ^ 54) = 3294613711480859 / 2 ^ 54"
    by (rule fl_eqI [where e = "- 3" and n = 6589227422961718])
       (simp_all add: py_round_def power_int_minus)
  have r7: "fl (7703926552961139 / 2 ^ 54 * (6056619697220709 / 2 ^ 53)) = 2529430295133 / 2 ^ 43"
    by (rule fl_eqI [where e = "- 2" and n = 5180273244432384])
       (simp_all add: py_round_def power_int_minus)
  have r8: "fl (2577617989130211 / 2 ^ 52 * (3294613711480859 / 2 ^ 54)) = 7542638131806101 / 2 ^ 56"
    by (rule fl_eqI [where e = "- 4" and n = 7542638131806101])
       (simp_all add: py_round_def power_int_minus)
  have r9: "fl (2529430295133 / 2 ^ 43 + 7542638131806101 / 2 ^ 56) = 7065932777383909 / 2 ^ 54"
    by (rule fl_eqI [where e = "- 2" and n = 7065932777383909])
       (simp_all add: py_round_def power_int_minus)
  show ?thesis
    by (rule race_fl_target2 [OF r1 r2 r3 r4 r5 r6 r7 r8 r9])
qed

section \<open>The claims\<close>

subsection \<open>C1: live boost with no shots taken\<close>

text \<open>
  C1 as stated (\<^verbatim>\<open>live_boost\<close> returns exactly 0 when \<open>shotsA + shotsB = 0\<close>) fails: the
  shot total is floored at 1 before it reaches the reliability weight, so the weight is
  \<open>1 / max 1 k_shots\<close> and not 0. With every statistic tied, no shot played and the
  default weights, standard deviations, \<open>k_shots = 150\<close> and \<open>beta = 0.25\<close>, the two
  share terms that read \<open>0 / 1e-9 - 0.5\<close> give a boost of \<open>- 37 / 7200\<close>.
\<close>

theorem live_boost_no_shots_counterexample:
  "shotsA tied_no_shots + shotsB tied_no_shots = 0
   \<and> live_boost tied_no_shots default_weights default_sds 150 (1 / 4) = - 37 / 7200
   \<and> live_boost tied_no_shots default_weights default_sds 150 (1 / 4) \<noteq> 0"
  by (simp add: live_boost_def w_rel_def live_S_def tied_no_shots_def default_weights_def
      default_sds_def z_def clip_def)

text \<open>
  C1, amended: when \<open>shotsA + shotsB = 0\<close> the reliability weight is \<open>1 / max 1 k_shots\<close>,
  and \<^verbatim>\<open>live_boost\<close> returns \<open>beta * (1 / max 1 k_shots) * S\<close> for the composite score
  \<open>S\<close> of the eight weighted z-scores.
\<close>

theorem live_boost_no_shots:
  "shotsA st + shotsB st = 0 \<Longrightarrow>
   live_boost st w sd k_shots beta = beta * (1 / max 1 k_shots) * live_S st w sd"
  by (simp only: live_boost_def w_rel_no_shots)

theorem live_boost_no_shots_witness:
  "shotsA tied_no_shots + shotsB tied_no_shots = 0
   \<and> live_boost tied_no_shots default_weights default_sds 150 (1 / 4)
       = 1 / 4 * (1 / max 1 150) * live_S tied_no_shots default_weights default_sds"
proof -
  have h: "shotsA tied_no_shots + shotsB tied_no_shots = 0"
    by (simp add: tied_no_shots_def)
  show ?thesis
    using h live_boost_no_shots [OF h, of default_weights default_sds 150 "1 / 4"] by simp
qed

subsection \<open>C2: terminal scores\<close>

text \<open>
  C2 as stated (1.0 whenever \<open>a \<ge> target\<close> and 0.0 whenever \<open>b \<ge> target\<close>, for all
  integers) fails where both hold: the test on \<open>a\<close> comes first, so at 4-4 with target 4
  the result is 1.0, not 0.0.
\<close>

theorem match_win_prob_both_terminal_counterexample:
  "(4::int) \<ge> 4 \<and> match_win_prob (1 / 2) 4 4 4 = Some 1 \<and> match_win_prob (1 / 2) 4 4 4 \<noteq> Some 0"
  by (simp add: match_win_prob_def match_win_prob_memo.simps)

text \<open>
  C2, amended: for every real \<open>p\<close> and all integers \<open>a\<close>, \<open>b\<close>, \<open>target\<close>,
  \<^verbatim>\<open>match_win_prob\<close> returns exactly 1.0 whenever \<open>a \<ge> target\<close>, and exactly 0.0
  whenever \<open>b \<ge> target\<close> and \<open>a < target\<close>. No recursive evaluation takes place: the
  dictionary comes back as it was passed, for any dictionary.
\<close>

theorem match_win_prob_terminal:
  "(a \<ge> target \<longrightarrow>
      match_win_prob_memo p a b target memo = Some (1, memo)
      \<and> match_win_prob p a b target = Some 1)
   \<and> (b \<ge> target \<and> a < target \<longrightarrow>
      match_win_prob_memo p a b target memo = Some (0, memo)
      \<and> match_win_prob p a b target = Some 0)"
  by (simp add: match_win_prob_def match_win_prob_memo.simps)

theorem match_win_prob_terminal_witness:
  "((5::int) \<ge> 4 \<and> match_win_prob (1 / 3) 5 2 4 = Some 1)
   \<and> ((5::int) \<ge> 4 \<and> (2::int) < 4 \<and> match_win_prob (1 / 3) 2 5 4 = Some 0)"
  using match_win_prob_terminal [of 4 5 "1 / 3" 2 Map.empty]
        match_win_prob_terminal [of 4 2 "1 / 3" 5 Map.empty]
  by simp

subsection \<open>C3: memoization does not change the result\<close>

text \<open>
  C3: the memoized \<^verbatim>\<open>match_win_prob\<close> returns the value of the direct recurrence
  \<open>f(a, b) = p * f(a + 1, b) + (1 - p) * f(a, b + 1)\<close> with the same base cases. It holds
  for every real \<open>p\<close>, every score and every target, so in particular for \<open>p\<close> in
  \<open>[0, 1]\<close> and \<open>target \<ge> 1\<close>; and \<^verbatim>\<open>match_win_prob(0.5, 0, 0, 4)\<close> is \<open>0.5\<close>.
\<close>

theorem match_win_prob_memo_is_recurrence:
  "match_win_prob p a b target = Some (race_naive p a b target)
   \<and> match_win_prob (1 / 2) 0 0 4 = Some (1 / 2)"
proof -
  have "race_naive (1 / 2) 0 0 4 = 1 / 2"
    by (simp add: race_naive.simps)
  then show ?thesis
    by (simp add: match_win_prob_race)
qed

subsection \<open>C4: monotone in the frame probability\<close>

text \<open>
  C4 as stated (for fixed score and target, \<open>p \<mapsto> match_win_prob(p, a, b, target)\<close> is
  non-decreasing on \<open>[0, 1]\<close>) fails on doubles: from 0-0 with target 2 the double
  \<open>p = 0.42765383195592854\<close> gives \<open>0.3922380629952599\<close> and the next double above it
  gives \<open>0.3922380629952598\<close>.
\<close>

theorem match_win_prob_not_monotone_counterexample:
  "(0::real) \<le> 3851963276480569 / 2 ^ 53
   \<and> (3851963276480569 / 2 ^ 53 :: real) \<le> 7703926552961139 / 2 ^ 54
   \<and> (7703926552961139 / 2 ^ 54 :: real) \<le> 1
   \<and> match_win_prob_fl (3851963276480569 / 2 ^ 53) 0 0 2 = Some (3532966388691955 / 2 ^ 53)
   \<and> match_win_prob_fl (7703926552961139 / 2 ^ 54) 0 0 2 = Some (7065932777383909 / 2 ^ 54)
   \<and> (7065932777383909 / 2 ^ 54 :: real) < 3532966388691955 / 2 ^ 53"
proof -
  have c1: "(0::real) \<le> 3851963276480569 / 2 ^ 53"
    and c2: "(3851963276480569 / 2 ^ 53 :: real) \<le> 7703926552961139 / 2 ^ 54"
    and c3: "(7703926552961139 / 2 ^ 54 :: real) \<le> 1"
    and c6: "(7065932777383909 / 2 ^ 54 :: real) < 3532966388691955 / 2 ^ 53"
    by simp_all
  have c4: "match_win_prob_fl (3851963276480569 / 2 ^ 53) 0 0 2
              = Some (3532966388691955 / 2 ^ 53)"
    by (simp only: match_win_prob_fl_race race_fl_ce1)
  have c5: "match_win_prob_fl (7703926552961139 / 2 ^ 54) 0 0 2
              = Some (7065932777383909 / 2 ^ 54)"
    by (simp only: match_win_prob_fl_race race_fl_ce2)
  from c1 c2 c3 c4 c5 c6 show ?thesis
    by blast
qed

text \<open>
  C4, amended: for every fixed score \<open>(a, b)\<close> and target, \<open>p \<mapsto> match_win_prob(p, a, b,
  target)\<close> is non-decreasing on \<open>[0, 1]\<close> up to the rounding of the double operations: for
  \<open>0 \<le> p \<le> q \<le> 1\<close> both calls return, and the value at \<open>p\<close> exceeds the value at
  \<open>q\<close> by at most \<open>10 * n * 2 ^ - 53\<close>, where \<open>n = max(target - a, 0) + max(target - b, 0)\<close>
  counts the frames the two players are still short of (\<open>n \<le> 2 ^ 49\<close>).
\<close>

theorem match_win_prob_mono_up_to_rounding:
  assumes "0 \<le> p" and "p \<le> q" and "q \<le> 1"
    and "nat (target - a) + nat (target - b) \<le> 2 ^ 49"
  shows "\<exists>u v. match_win_prob_fl p a b target = Some u
             \<and> match_win_prob_fl q a b target = Some v
             \<and> u \<le> v + 10 * real (nat (target - a) + nat (target - b)) / 2 ^ 53"
  using match_win_prob_fl_mono_aux [OF assms] by (simp add: match_win_prob_fl_race)

theorem match_win_prob_mono_up_to_rounding_witness:
  "(0::real) \<le> 1 / 4 \<and> (1 / 4 :: real) \<le> 3 / 4 \<and> (3 / 4 :: real) \<le> 1
   \<and> nat (2 - 0) + nat (2 - 0) \<le> 2 ^ 49
   \<and> (\<exists>u v. match_win_prob_fl (1 / 4) 0 0 2 = Some u
            \<and> match_win_prob_fl (3 / 4) 0 0 2 = Some v
            \<and> u \<le> v + 10 * real (nat (2 - 0) + nat (2 - 0)) / 2 ^ 53)"
proof -
  have h: "nat (2 - 0) + nat (2 - 0) \<le> (2::nat) ^ 49"
    by simp
  have "(0::real) \<le> 1 / 4" and "(1 / 4 :: real) \<le> 3 / 4" and "(3 / 4 :: real) \<le> 1"
    by simp_all
  from match_win_prob_mono_up_to_rounding [OF this h] h show ?thesis
    by simp
qed

subsection \<open>C5: realism shrink and cap\<close>

text \<open>
  C5 says that with shrink factor 0 the per-frame probability is exactly \<open>0.5\<close> whatever
  the season strengths and the live boost, and that with capping on it lies in the clamp
  interval. The step calls \<^verbatim>\<open>inv_logit\<close> first: at \<open>SA - SB + boost = - 1024\<close> that call
  raises \<^verbatim>\<open>OverflowError\<close>, with shrink factor 0 and capping on, and no probability is
  produced. Where \<^verbatim>\<open>inv_logit\<close> returns, the value is as the claim says
  (\<open>p_frame_value\<close>, \<open>p_frame_returns\<close>).
\<close>

theorem p_frame_overflow:
  "p_frame (- 1024) 0 0 0 True (45 / 100) (66 / 100) = Inl OverflowError"
  using exp_1024_overflows by (simp add: p_frame_def inv_logit_def math_exp_def)

subsection \<open>C7: the recursion terminates\<close>

text \<open>
  C7: \<^verbatim>\<open>match_win_prob\<close> returns for every real \<open>p\<close>, all integers \<open>a\<close>, \<open>b\<close>,
  \<open>target\<close> and any dictionary; and every recursive call increases \<open>a + b\<close> by one and
  keeps it at most \<open>2 * target - 1\<close>.
\<close>

theorem match_win_prob_terminates:
  "(\<exists>v memo'. match_win_prob_memo p a b target memo = Some (v, memo'))
   \<and> (\<exists>v. match_win_prob p a b target = Some v)
   \<and> (rec_call target (a, b) (a', b') \<longrightarrow> a' + b' = a + b + 1 \<and> a' + b' \<le> 2 * target - 1)"
proof -
  have c: "rec_call target (a, b) (a', b') \<longrightarrow> a' + b' = a + b + 1 \<and> a' + b' \<le> 2 * target - 1"
    by (auto elim: rec_call.cases)
  have m: "\<exists>v memo'. match_win_prob_memo p a b target memo = Some (v, memo')"
    by (rule memo_returns)
  have t: "\<exists>v. match_win_prob p a b target = Some v"
    by (simp add: match_win_prob_race)
  show ?thesis
    using c m t by (intro conjI)
qed

theorem match_win_prob_terminates_witness:
  "(\<exists>v. match_win_prob (1 / 2) 0 0 4 = Some v)
   \<and> rec_call 4 (0, 0) (1, 0) \<and> (1::int) + 0 = 0 + 0 + 1 \<and> (1::int) + 0 \<le> 2 * 4 - 1"
proof -
  have c: "rec_call 4 (0, 0) (0 + 1, 0)"
    by (rule call_left) simp_all
  show ?thesis
    using c match_win_prob_terminates [of "1 / 2" 0 0 4 Map.empty 1 0] by simp
qed

subsection \<open>C8: totality of the core functions\<close>

text \<open>
  C8 says no core function raises on a finite real input. \<^verbatim>\<open>inv_logit\<close> does: at
  \<open>- 1024\<close> it calls \<^verbatim>\<open>math.exp(1024)\<close>, whose value is beyond the largest double, and
  the \<^verbatim>\<open>OverflowError\<close> leaves the function. The other functions have no such branch:
  \<open>divisors_positive\<close>, \<open>logit_returns\<close>, and C7 for the recursion.
\<close>

theorem inv_logit_overflow: "inv_logit (- 1024) = Inl OverflowError"
  using exp_1024_overflows by (simp add: inv_logit_def math_exp_def)

subsection \<open>C9: the match probability is a probability\<close>

text \<open>
  C9: for \<open>p\<close> in \<open>[0, 1]\<close> (so for every \<open>p\<close> in \<open>(0, 1)\<close>), all integer scores and
  every target (so for \<open>a, b \<ge> 0\<close> and \<open>target \<ge> 1\<close>), \<^verbatim>\<open>match_win_prob\<close> returns a value
  in \<open>[0, 1]\<close>.
\<close>

theorem match_win_prob_in_unit_interval:
  "0 \<le> p \<Longrightarrow> p \<le> 1 \<Longrightarrow> \<exists>v. match_win_prob p a b target = Some v \<and> 0 \<le> v \<and> v \<le> 1"
  by (simp add: match_win_prob_race race_bounds)

theorem match_win_prob_in_unit_interval_witness:
  "(0::real) \<le> 1 / 3 \<and> (1 / 3 :: real) \<le> 1
   \<and> (\<exists>v. match_win_prob (1 / 3) 1 0 2 = Some v \<and> 0 \<le> v \<and> v \<le> 1)"
  using match_win_prob_in_unit_interval [of "1 / 3" 1 0 2] by simp

subsection \<open>C10: the time-on-table term reads only player A\<close>

text \<open>
  C10: \<^verbatim>\<open>live_boost\<close> does not depend on \<open>totB\<close>: two calls that differ only in
  \<open>totB\<close> return the same value. The time-on-table term is
  \<open>w_tot * z (totA / 100 - 0.5) sd_tot_share\<close>.
\<close>

theorem live_boost_ignores_totB:
  "live_boost (st\<lparr>totB := t1\<rparr>) w sd k_shots beta = live_boost (st\<lparr>totB := t2\<rparr>) w sd k_shots beta"
  by (simp add: live_boost_def live_S_def)

end
